theory Spec2Isabelle
  imports Complex_Main
begin

section \<open>The whale bot of \<^verbatim>\<open>whale-bot.js\<close>\<close>

text \<open>
  The bot polls a CKB node, walks every new block, sums the outputs of each transaction
  and sends a Telegram alert for every transaction whose total reaches a threshold and
  which is not a self-transfer. Its only durable state is the file \<^verbatim>\<open>.last-block\<close>.

  Conventions of the embedding.
  \<^item> An \<^verbatim>\<open>async\<close> function or a function that can throw returns \<open>error + 'a\<close>
    (\<open>Inl\<close> is the rejection or the exception); \<^verbatim>\<open>try/catch\<close> is a case
    distinction on that value.
  \<^item> The module-level variables (\<^verbatim>\<open>ckbPriceUsd\<close>, \<^verbatim>\<open>priceFetchedAt\<close>,
    \<^verbatim>\<open>lastBlock\<close>) and the state file are the fields of the record \<open>bot\<close>, which
    every stateful function takes and returns. The field \<open>trace\<close> lists, in the
    order the code performs them, the requests for a block and for the price, the
    Telegram messages and the writes of the state file (with their outcome).
  \<^item> The outside (node, price feed, Telegram, file system, clock) is the record
    \<open>world\<close> of answers, fixed for the duration of one poll cycle.
  \<^item> A \<^verbatim>\<open>BigInt\<close> is an \<open>int\<close>. A JavaScript number that holds a price is the
    \<open>real\<close> it denotes. Hexadecimal strings of the RPC (heights, capacities, indexes)
    are the \<open>nat\<close> they denote.
\<close>

subsection \<open>Data\<close>

datatype error = RequestFailed | RpcFailed | TelegramFailed | FsFailed | RangeError

text \<open>A lock script; the code compares locks through \<^verbatim>\<open>JSON.stringify\<close>.\<close>

record script =
  code_hash :: string
  hash_type :: string
  args :: string

record out_point =
  tx_hash :: string
  index :: nat

record cell_input =
  previous_output :: out_point

record cell_output =
  capacity :: nat
  lock :: script

record tx =
  hash :: string
  inputs :: "cell_input list"
  outputs :: "cell_output list"

record block =
  transactions :: "tx list"

text \<open>The result of \<^verbatim>\<open>get_transaction\<close>: its field \<^verbatim>\<open>transaction\<close> may be absent.\<close>

record tx_with_status =
  transaction :: "tx option"

text \<open>The argument of \<^verbatim>\<open>buildAlert\<close>; the formatting of the message is not modelled.\<close>

record alert =
  a_hash :: string
  a_blockNum :: nat
  a_outputCKB :: int
  a_inputCount :: nat
  a_outputCount :: nat
  a_outputs :: "int list"
  a_priceUsd :: "real option"

text \<open>
  What \<^verbatim>\<open>data?.['nervos-network']?.usd\<close> evaluates to in the answer of the price feed:
  a number, or anything else.
\<close>

datatype usd_field = UsdNumber real | UsdOther

datatype event =
    PriceRequest
  | GetBlock nat
  | SendTelegram alert
  | WriteFile nat
  | WriteFileFailed nat

record bot =
  ckbPriceUsd :: "real option"
  priceFetchedAt :: int
  lastBlock :: "nat option"
  stateFile :: "string option"
  trace :: "event list"

text \<open>
  The answers of the outside during one cycle. The clock and the price feed are asked once
  per block, so they are indexed by the height being processed. \<open>fs_write w n\<close> tells
  whether the write of the pointer \<open>n\<close> succeeds; when it fails, \<open>fs_damage w n\<close> maps
  the old content of the state file to what the failed \<^verbatim>\<open>writeFileSync\<close> leaves behind
  (the old content when the file cannot be opened, an empty or partly written file when
  the write fails after the file was opened and truncated).
\<close>

record world =
  rpc_tip :: "error + nat"
  rpc_block :: "nat \<Rightarrow> error + block option"
  rpc_transaction :: "string \<Rightarrow> error + tx_with_status option"
  coingecko :: "nat \<Rightarrow> error + usd_field"
  clock :: "nat \<Rightarrow> int"
  telegram :: "alert \<Rightarrow> error + unit"
  fs_write :: "nat \<Rightarrow> bool"
  fs_damage :: "nat \<Rightarrow> string option \<Rightarrow> string option"

subsection \<open>Constants\<close>

definition SHANNON_PER_CKB :: int where
  "SHANNON_PER_CKB = 100000000"

definition WHALE_USD_THRESHOLD :: real where
  "WHALE_USD_THRESHOLD = 200000"

definition PRICE_TTL_MS :: int where
  "PRICE_TTL_MS = 5 * 60 * 1000"

subsection \<open>Price cache\<close>

text \<open>
  \<^verbatim>\<open>fetchCkbPrice\<close>: \<open>now\<close> is \<^verbatim>\<open>Date.now()\<close> and \<open>resp\<close> the outcome of the
  request, which is only issued (and traced) when the cache does not answer. The
  \<^verbatim>\<open>catch\<close> swallows the rejection; both paths end in \<^verbatim>\<open>return ckbPriceUsd\<close>.
\<close>

definition fetchCkbPrice ::
  "int \<Rightarrow> error + usd_field \<Rightarrow> bot \<Rightarrow> (error + real option) \<times> bot" where
  "fetchCkbPrice now resp s =
     (if ckbPriceUsd s \<noteq> None \<and> now - priceFetchedAt s < PRICE_TTL_MS
      then (Inr (ckbPriceUsd s), s)
      else
        let s1 = s\<lparr>trace := trace s @ [PriceRequest]\<rparr>;
            s2 = (case resp of
                    Inl e \<Rightarrow> s1
                  | Inr UsdOther \<Rightarrow> s1
                  | Inr (UsdNumber price) \<Rightarrow>
                      if price > 0
                      then s1\<lparr>ckbPriceUsd := Some price, priceFetchedAt := now\<rparr>
                      else s1)
        in (Inr (ckbPriceUsd s2), s2))"

subsection \<open>Threshold\<close>

text \<open>
  \<^verbatim>\<open>whaleThresholdShannons\<close>: \<^verbatim>\<open>!priceUsd\<close> holds for \<^verbatim>\<open>null\<close> and for 0.
  The function is embedded twice. \<open>whaleThresholdShannons\<close> takes the quotient
  \<^verbatim>\<open>WHALE_USD_THRESHOLD / priceUsd\<close> exactly; the scan of a block is stated with it.
  \<open>whaleThresholdShannons_double\<close>, further down, takes it as the division of IEEE 754
  doubles that JavaScript performs.
\<close>

definition whaleThresholdShannons :: "real option \<Rightarrow> int" where
  "whaleThresholdShannons priceUsd =
     (case priceUsd of
        None \<Rightarrow> 10000000 * SHANNON_PER_CKB
      | Some p \<Rightarrow>
          if p = 0 \<or> p \<le> 0 then 10000000 * SHANNON_PER_CKB
          else (let ckbNeeded = \<lceil>WHALE_USD_THRESHOLD / p\<rceil>
                in ckbNeeded * SHANNON_PER_CKB))"

text \<open>
  The division of two doubles: the exact quotient \<open>x\<close>, here positive, is rounded to
  the nearest double, ties to the even significand. \<open>pow2 e\<close> is \<open>2\<close> to the power
  \<open>e\<close>; \<open>binade x\<close> is the exponent \<open>e\<close> with \<open>pow2 e \<le> x < pow2 (e + 1)\<close>, searched
  in the range of the doubles; the doubles around \<open>x\<close> are the multiples of
  \<open>pow2 (binade x - 52)\<close>, of \<open>pow2 (- 1074)\<close> for a subnormal \<open>x\<close>. A result of
  \<open>pow2 1024\<close> or more is \<^verbatim>\<open>Infinity\<close>, here \<open>None\<close>.
\<close>

definition pow2 :: "int \<Rightarrow> real" where
  "pow2 e = (if 0 \<le> e then 2 ^ nat e else 1 / 2 ^ nat (- e))"

definition binade :: "real \<Rightarrow> int" where
  "binade x =
     (case find (\<lambda>e. x < pow2 (e + 1)) [- 1074 .. 1023] of
        None \<Rightarrow> 1024
      | Some e \<Rightarrow> e)"

definition round_half_even :: "real \<Rightarrow> int" where
  "round_half_even y =
     (let f = \<lfloor>y\<rfloor>; d = y - of_int f
      in if d < 1 / 2 then f
         else if 1 / 2 < d then f + 1
         else if even f then f else f + 1)"

definition round_double :: "real \<Rightarrow> real option" where
  "round_double x =
     (let u = pow2 (max (binade x - 52) (- 1074));
          q = of_int (round_half_even (x / u)) * u
      in if pow2 1024 \<le> q then None else Some q)"

text \<open>
  \<^verbatim>\<open>Math.ceil\<close> of a finite double is exact and \<^verbatim>\<open>BigInt\<close> converts it exactly;
  \<^verbatim>\<open>BigInt(Infinity)\<close> throws a \<^verbatim>\<open>RangeError\<close>.
\<close>

definition whaleThresholdShannons_double :: "real option \<Rightarrow> error + int" where
  "whaleThresholdShannons_double priceUsd =
     (case priceUsd of
        None \<Rightarrow> Inr (10000000 * SHANNON_PER_CKB)
      | Some p \<Rightarrow>
          if p = 0 \<or> p \<le> 0 then Inr (10000000 * SHANNON_PER_CKB)
          else (case round_double (WHALE_USD_THRESHOLD / p) of
                  None \<Rightarrow> Inl RangeError
                | Some q \<Rightarrow>
                    (let ckbNeeded = \<lceil>q\<rceil>
                     in Inr (ckbNeeded * SHANNON_PER_CKB))))"

subsection \<open>Progress pointer\<close>

text \<open>
  \<^verbatim>\<open>String.prototype.trim\<close> and \<^verbatim>\<open>parseInt(saved, 10)\<close> on the ASCII part of the
  character set: white space is skipped, one sign is read, then the longest run of decimal
  digits; no digit gives \<^verbatim>\<open>NaN\<close>, here \<open>None\<close>. The value is the exact integer
  (JavaScript rounds beyond \<open>2 ^ 53\<close>).
\<close>

definition isWhiteSpace :: "char \<Rightarrow> bool" where
  "isWhiteSpace c = (of_char c \<in> {9, 10, 11, 12, 13, 32 :: nat})"

definition isDigit :: "char \<Rightarrow> bool" where
  "isDigit c = (48 \<le> (of_char c :: nat) \<and> (of_char c :: nat) \<le> 57)"

definition digitVal :: "char \<Rightarrow> nat" where
  "digitVal c = of_char c - 48"

definition trim :: "string \<Rightarrow> string" where
  "trim str = rev (dropWhile isWhiteSpace (rev (dropWhile isWhiteSpace str)))"

definition parseInt10 :: "string \<Rightarrow> int option" where
  "parseInt10 str =
     (let s = dropWhile isWhiteSpace str;
          (sign, r) = (case s of
                         [] \<Rightarrow> (1, s)
                       | c # cs \<Rightarrow>
                           if c = CHR ''-'' then (- 1, cs)
                           else if c = CHR ''+'' then (1, cs)
                           else (1, s));
          z = takeWhile isDigit r
      in if z = [] then None
         else Some (sign * int (foldl (\<lambda>a c. 10 * a + digitVal c) 0 z)))"

text \<open>
  \<^verbatim>\<open>loadLastBlock\<close>: the argument is the content of the state file, \<open>None\<close> when
  \<^verbatim>\<open>readFileSync\<close> throws (the file is missing or unreadable).
\<close>

definition loadLastBlock :: "string option \<Rightarrow> nat option" where
  "loadLastBlock file =
     (case file of
        None \<Rightarrow> None
      | Some content \<Rightarrow>
          (let saved = trim content
           in case parseInt10 saved of
                None \<Rightarrow> None
              | Some n \<Rightarrow> if n > 0 then Some (nat n) else None))"

text \<open>
  \<^verbatim>\<open>String(n)\<close> for a height: its decimal digits (JavaScript switches to exponent
  notation from \<open>10 ^ 21\<close> on, far above any height).
\<close>

function decimal :: "nat \<Rightarrow> string" where
  "decimal n =
     (if n < 10 then [char_of (48 + n)]
      else decimal (n div 10) @ [char_of (48 + n mod 10)])"
  by pat_completeness auto
termination
  by (relation "measure id") auto

declare decimal.simps [simp del]

text \<open>
  \<^verbatim>\<open>saveLastBlock\<close>: \<^verbatim>\<open>writeFileSync\<close> either replaces the content of the file, or
  throws and leaves what the file system makes of the file.
\<close>

definition saveLastBlock :: "world \<Rightarrow> nat \<Rightarrow> bot \<Rightarrow> (error + unit) \<times> bot" where
  "saveLastBlock w n s =
     (if fs_write w n
      then (Inr (), s\<lparr>stateFile := Some (decimal n), trace := trace s @ [WriteFile n]\<rparr>)
      else (Inl FsFailed,
            s\<lparr>stateFile := fs_damage w n (stateFile s),
              trace := trace s @ [WriteFileFailed n]\<rparr>))"

text \<open>The module initialiser: \<^verbatim>\<open>let lastBlock = loadLastBlock()\<close>.\<close>

definition startup :: "string option \<Rightarrow> bot" where
  "startup file =
     \<lparr>ckbPriceUsd = None, priceFetchedAt = 0, lastBlock = loadLastBlock file,
      stateFile = file, trace = []\<rparr>"

subsection \<open>Self-transfer detection\<close>

text \<open>
  \<^verbatim>\<open>Promise.all\<close>: the values in order, or a rejection. Which rejection it is when
  several lookups fail does not matter: the \<^verbatim>\<open>catch\<close> of \<^verbatim>\<open>isSelfTransfer\<close>
  only logs it.
\<close>

fun promise_all :: "(error + 'a) list \<Rightarrow> error + 'a list" where
  "promise_all [] = Inr []"
| "promise_all (r # rs) =
     (case r of
        Inl e \<Rightarrow> Inl e
      | Inr v \<Rightarrow> (case promise_all rs of Inl e \<Rightarrow> Inl e | Inr vs \<Rightarrow> Inr (v # vs)))"

text \<open>
  The loop over \<open>j\<close> that fills \<^verbatim>\<open>inputLocks\<close>. An input whose previous transaction
  is \<^verbatim>\<open>null\<close>, has no \<^verbatim>\<open>transaction\<close> field or has no output at the index
  contributes nothing.
\<close>

function collectLocks ::
  "cell_input list \<Rightarrow> tx_with_status option list \<Rightarrow> nat \<Rightarrow> script set \<Rightarrow> script set" where
  "collectLocks ins prevTxResults j inputLocks =
     (if j < length ins then
        (case prevTxResults ! j of
           None \<Rightarrow> collectLocks ins prevTxResults (j + 1) inputLocks
         | Some res \<Rightarrow>
             (let idx = index (previous_output (ins ! j))
              in case transaction res of
                   None \<Rightarrow> collectLocks ins prevTxResults (j + 1) inputLocks
                 | Some prev \<Rightarrow>
                     if idx < length (outputs prev)
                     then collectLocks ins prevTxResults (j + 1)
                            (insert (lock (outputs prev ! idx)) inputLocks)
                     else collectLocks ins prevTxResults (j + 1) inputLocks))
      else inputLocks)"
  by pat_completeness auto
termination
  by (relation "measure (\<lambda>(ins, prevTxResults, j, inputLocks). length ins - j)") auto

declare collectLocks.simps [simp del]

text \<open>The body of the \<^verbatim>\<open>try\<close> block of \<^verbatim>\<open>isSelfTransfer\<close>.\<close>

definition isSelfTransfer_try :: "world \<Rightarrow> tx \<Rightarrow> error + bool" where
  "isSelfTransfer_try w t =
     (case promise_all
             (map (\<lambda>inp. rpc_transaction w (tx_hash (previous_output inp))) (inputs t)) of
        Inl e \<Rightarrow> Inl e
      | Inr prevTxResults \<Rightarrow>
          (let inputLocks = collectLocks (inputs t) prevTxResults 0 {}
           in if card inputLocks = 0 then Inr False
              else Inr (list_all (\<lambda>out. lock out \<in> inputLocks) (outputs t))))"

definition isSelfTransfer :: "world \<Rightarrow> tx \<Rightarrow> error + bool" where
  "isSelfTransfer w t =
     (case isSelfTransfer_try w t of
        Inl err \<Rightarrow> Inr False
      | Inr b \<Rightarrow> Inr b)"

subsection \<open>Block processing\<close>

text \<open>
  The \<^verbatim>\<open>for\<close> loop of \<^verbatim>\<open>processBlock\<close>, entered at \<open>i = 1\<close>. A failed
  \<^verbatim>\<open>sendTelegram\<close> is caught and only logged.
\<close>

function scanTxs ::
  "world \<Rightarrow> nat \<Rightarrow> tx list \<Rightarrow> real option \<Rightarrow> int \<Rightarrow> nat \<Rightarrow> bot \<Rightarrow> (error + unit) \<times> bot" where
  "scanTxs w blockNum txs priceUsd threshold i s =
     (if i < length txs then
        (let t = txs ! i;
             outs = map (\<lambda>out. int (capacity out)) (outputs t);
             total = foldl (\<lambda>a b. a + b) 0 outs
         in if total < threshold
            then scanTxs w blockNum txs priceUsd threshold (i + 1) s
            else
              (case isSelfTransfer w t of
                 Inl e \<Rightarrow> (Inl e, s)
               | Inr True \<Rightarrow> scanTxs w blockNum txs priceUsd threshold (i + 1) s
               | Inr False \<Rightarrow>
                   (let msg = \<lparr>a_hash = hash t, a_blockNum = blockNum, a_outputCKB = total,
                               a_inputCount = length (inputs t),
                               a_outputCount = length (outputs t),
                               a_outputs = outs, a_priceUsd = priceUsd\<rparr>;
                        s1 = s\<lparr>trace := trace s @ [SendTelegram msg]\<rparr>;
                        s2 = (case telegram w msg of Inl err \<Rightarrow> s1 | Inr ok \<Rightarrow> s1)
                    in scanTxs w blockNum txs priceUsd threshold (i + 1) s2)))
      else (Inr (), s))"
  by pat_completeness auto
termination
  by (relation "measure (\<lambda>(w, blockNum, txs, priceUsd, threshold, i, s). length txs - i)")
    auto

declare scanTxs.simps [simp del]

definition processBlock :: "world \<Rightarrow> nat \<Rightarrow> bot \<Rightarrow> (error + unit) \<times> bot" where
  "processBlock w blockNum s =
     (let s0 = s\<lparr>trace := trace s @ [GetBlock blockNum]\<rparr>
      in case rpc_block w blockNum of
           Inl e \<Rightarrow> (Inl e, s0)
         | Inr None \<Rightarrow> (Inr (), s0)
         | Inr (Some b) \<Rightarrow>
             (let txs = transactions b
              in case fetchCkbPrice (clock w blockNum) (coingecko w blockNum) s0 of
                   (Inl e, s1) \<Rightarrow> (Inl e, s1)
                 | (Inr priceUsd, s1) \<Rightarrow>
                     (let threshold = whaleThresholdShannons priceUsd
                      in scanTxs w blockNum txs priceUsd threshold 1 s1)))"

subsection \<open>Polling\<close>

text \<open>The \<^verbatim>\<open>for\<close> loop of \<^verbatim>\<open>poll\<close>; an exception leaves it at once.\<close>

function catchUp :: "world \<Rightarrow> nat \<Rightarrow> nat \<Rightarrow> bot \<Rightarrow> (error + unit) \<times> bot" where
  "catchUp w toProcess n s =
     (if n \<le> toProcess then
        (case processBlock w n s of
           (Inl e, s1) \<Rightarrow> (Inl e, s1)
         | (Inr u, s1) \<Rightarrow>
             (let s2 = s1\<lparr>lastBlock := Some n\<rparr>
              in case saveLastBlock w n s2 of
                   (Inl e, s3) \<Rightarrow> (Inl e, s3)
                 | (Inr u', s3) \<Rightarrow> catchUp w toProcess (n + 1) s3))
      else (Inr (), s))"
  by pat_completeness auto
termination
  by (relation "measure (\<lambda>(w, toProcess, n, s). toProcess + 1 - n)") auto

declare catchUp.simps [simp del]

text \<open>The body of the \<^verbatim>\<open>try\<close> block of \<^verbatim>\<open>poll\<close>.\<close>

definition poll_try :: "world \<Rightarrow> bot \<Rightarrow> (error + unit) \<times> bot" where
  "poll_try w s =
     (case rpc_tip w of
        Inl e \<Rightarrow> (Inl e, s)
      | Inr tip \<Rightarrow>
          (case lastBlock s of
             None \<Rightarrow>
               (let s1 = s\<lparr>lastBlock := Some tip\<rparr>
                in saveLastBlock w tip s1)
           | Some lb \<Rightarrow>
               if tip \<le> lb then (Inr (), s)
               else (let toProcess = min tip (lb + 50)
                     in catchUp w toProcess (lb + 1) s)))"

text \<open>\<^verbatim>\<open>poll\<close>: the \<^verbatim>\<open>catch\<close> logs the error and the cycle ends.\<close>

definition poll :: "world \<Rightarrow> bot \<Rightarrow> bot" where
  "poll w s = (case poll_try w s of (Inl err, s') \<Rightarrow> s' | (Inr u, s') \<Rightarrow> s')"







subsection \<open>Notions used in the statements\<close>

text \<open>The alerts sent and the heights requested, as a trace records them.\<close>

fun sent :: "event list \<Rightarrow> alert list" where
  "sent [] = []"
| "sent (SendTelegram a # es) = a # sent es"
| "sent (e # es) = sent es"

fun fetched :: "event list \<Rightarrow> nat list" where
  "fetched [] = []"
| "fetched (GetBlock n # es) = n # fetched es"
| "fetched (e # es) = fetched es"



text \<open>
  The input authorities of a transaction, stated apart from the loop: the lock of the
  output that an input spends, when the node returns the previous transaction and it has
  an output at that index; and whether some lookup is rejected.
\<close>

definition authority_of :: "world \<Rightarrow> cell_input \<Rightarrow> script option" where
  "authority_of w inp =
     (case rpc_transaction w (tx_hash (previous_output inp)) of
        Inl e \<Rightarrow> None
      | Inr None \<Rightarrow> None
      | Inr (Some res) \<Rightarrow>
          (case transaction res of
             None \<Rightarrow> None
           | Some prev \<Rightarrow>
               if index (previous_output inp) < length (outputs prev)
               then Some (lock (outputs prev ! index (previous_output inp)))
               else None))"

definition inputAuthorities :: "world \<Rightarrow> tx \<Rightarrow> script set" where
  "inputAuthorities w t = set (List.map_filter (authority_of w) (inputs t))"

definition lookup_rejected :: "world \<Rightarrow> tx \<Rightarrow> bool" where
  "lookup_rejected w t =
     list_ex (\<lambda>inp. isl (rpc_transaction w (tx_hash (previous_output inp)))) (inputs t)"









subsection \<open>Example data\<close>

text \<open>
  Block 102 holds a reward transaction of 11,000,000 CKB and three transfers that spend
  an output locked by \<open>lockA\<close>: 17,500,000 CKB to \<open>lockB\<close> and \<open>lockA\<close>, the same
  amounts back to \<open>lockA\<close> alone, and a transfer one shannon short of 10,000,000 CKB.
  The price feed does not answer, so a bot without a rate in its cache applies the
  fallback threshold.
\<close>

definition lockA :: script where
  "lockA = \<lparr>code_hash = ''0x9bd7'', hash_type = ''type'', args = ''0xa1''\<rparr>"

definition lockB :: script where
  "lockB = \<lparr>code_hash = ''0x9bd7'', hash_type = ''type'', args = ''0xb2''\<rparr>"

definition prevTx :: tx where
  "prevTx = \<lparr>hash = ''0xaa'', inputs = [],
             outputs = [\<lparr>capacity = 2000000000000000, lock = lockA\<rparr>]\<rparr>"

definition spendA :: cell_input where
  "spendA = \<lparr>previous_output = \<lparr>tx_hash = ''0xaa'', index = 0\<rparr>\<rparr>"

definition cellbaseTx :: tx where
  "cellbaseTx = \<lparr>hash = ''0xc0'', inputs = [],
                 outputs = [\<lparr>capacity = 1100000000000000, lock = lockB\<rparr>]\<rparr>"

definition whaleTx :: tx where
  "whaleTx = \<lparr>hash = ''0x01'', inputs = [spendA],
              outputs = [\<lparr>capacity = 1500000000000000, lock = lockB\<rparr>,
                         \<lparr>capacity = 250000000000000, lock = lockA\<rparr>]\<rparr>"

definition selfTx :: tx where
  "selfTx = \<lparr>hash = ''0x02'', inputs = [spendA],
             outputs = [\<lparr>capacity = 1500000000000000, lock = lockA\<rparr>,
                        \<lparr>capacity = 250000000000000, lock = lockA\<rparr>]\<rparr>"

definition smallTx :: tx where
  "smallTx = \<lparr>hash = ''0x03'', inputs = [spendA],
              outputs = [\<lparr>capacity = 999999999999999, lock = lockB\<rparr>]\<rparr>"

text \<open>A transfer whose input comes from a transaction that the node does not return.\<close>

definition unknownTx :: tx where
  "unknownTx = \<lparr>hash = ''0x04'',
                 inputs = [\<lparr>previous_output = \<lparr>tx_hash = ''0xff'', index = 0\<rparr>\<rparr>],
                 outputs = [\<lparr>capacity = 1500000000000000, lock = lockA\<rparr>]\<rparr>"

definition demo_block :: block where
  "demo_block = \<lparr>transactions = [cellbaseTx, whaleTx, selfTx, smallTx]\<rparr>"

definition demo_world :: world where
  "demo_world =
     \<lparr>rpc_tip = Inr 103,
      rpc_block = (\<lambda>n. if n = 102 then Inr (Some demo_block) else Inr None),
      rpc_transaction =
        (\<lambda>h. if h = ''0xaa'' then Inr (Some \<lparr>transaction = Some prevTx\<rparr>)
             else Inl RpcFailed),
      coingecko = (\<lambda>n. Inl RequestFailed),
      clock = (\<lambda>n. 1700000000000),
      telegram = (\<lambda>a. Inr ()),
      fs_write = (\<lambda>n. True),
      fs_damage = (\<lambda>n old. Some [])\<rparr>"




text \<open>
  A bot that has a rate of 0.01 USD in its cache and has processed height 100, and one
  that has processed height 100 and has no rate yet.
\<close>

definition demo_bot :: bot where
  "demo_bot =
     \<lparr>ckbPriceUsd = Some (1 / 100), priceFetchedAt = 1000, lastBlock = Some 100,
      stateFile = Some ''100'', trace = []\<rparr>"


text \<open>
  The double nearest to 0.009999997500000624, a rate at which the rounding of the
  quotient shows.
\<close>

definition rate_v :: real where
  "rate_v = 2882303040941357 / 2 ^ 58"

section \<open>Properties\<close>

subsection \<open>Threshold\<close>

text \<open>
  Powers of two, the binade of a positive real and the rounding of a quotient to the
  nearest double.
\<close>

lemma pow2_powr: "pow2 e = 2 powr (of_int e)"
proof (cases "0 \<le> e")
  case True
  have "(2 :: real) powr (real (nat e)) = 2 ^ nat e"
    by (rule powr_realpow) simp
  moreover have "real (nat e) = of_int e"
    using True by simp
  ultimately show ?thesis
    using True by (simp add: pow2_def)
next
  case False
  have "(2 :: real) powr (real (nat (- e))) = 2 ^ nat (- e)"
    by (rule powr_realpow) simp
  moreover have "real (nat (- e)) = - of_int e"
    using False by simp
  ultimately have "(2 :: real) powr (- of_int e) = 2 ^ nat (- e)"
    by simp
  moreover have "(2 :: real) powr (of_int e) = 1 / 2 powr (- of_int e)"
    using powr_minus_divide [of 2 "- of_int e"] by simp
  ultimately have "(2 :: real) powr (of_int e) = 1 / 2 ^ nat (- e)"
    by simp
  then show ?thesis
    using False by (simp add: pow2_def)
qed

lemma pow2_pos: "0 < pow2 e"
  by (simp add: pow2_powr)

lemma pow2_mono: "a \<le> b \<Longrightarrow> pow2 a \<le> pow2 b"
  by (simp add: pow2_powr)

lemma pow2_add: "pow2 (a + b) = pow2 a * pow2 b"
  by (simp add: pow2_powr powr_add)

lemma pow2_nat: "pow2 (int k) = 2 ^ k"
  by (simp add: pow2_def)

lemma pow2_neg: "e \<le> 0 \<Longrightarrow> pow2 e = 1 / of_int (2 ^ nat (- e))"
  by (cases "e = 0") (simp_all add: pow2_def)

lemma find_upto_Some: "find P [a .. b] = Some e \<Longrightarrow> P e \<and> a \<le> e \<and> e \<le> b"
proof -
  assume "find P [a .. b] = Some e"
  then have "P e" "e \<in> set [a .. b]"
    by (auto simp add: find_Some_iff)
  then show ?thesis
    by simp
qed

lemma find_upto_least:
  assumes "P k" and "a \<le> k" and "k \<le> b"
  shows "\<exists>e. find P [a .. b] = Some e \<and> e \<le> k"
proof (cases "find P [a .. b]")
  case None
  with assms show ?thesis
    by (auto simp add: find_None_iff)
next
  case (Some e)
  then obtain i where i: "i < length [a .. b]" "e = [a .. b] ! i"
    and least: "\<forall>j < i. \<not> P ([a .. b] ! j)"
    by (auto simp add: find_Some_iff)
  define j where "j = nat (k - a)"
  have j: "[a .. b] ! j = k"
    using assms(2,3) by (simp add: j_def)
  have "\<not> j < i"
    using least j assms(1) by auto
  then have "i \<le> j"
    by simp
  moreover have "e = a + int i"
    using i by simp
  ultimately have "e \<le> k"
    using assms(2) by (simp add: j_def)
  with Some show ?thesis
    by simp
qed

lemma binade_range: "- 1074 \<le> binade x \<and> binade x \<le> 1024"
proof (cases "find (\<lambda>e. x < pow2 (e + 1)) [- 1074 .. 1023]")
  case None
  then have "binade x = 1024"
    unfolding binade_def by (rule ssubst) (rule option.case)
  then show ?thesis
    by simp
next
  case (Some e)
  then have "binade x = e"
    unfolding binade_def by (rule ssubst) (rule option.case)
  moreover from find_upto_Some [OF Some] have "- 1074 \<le> e \<and> e \<le> 1023"
    by blast
  ultimately show ?thesis
    by linarith
qed

lemma binade_le:
  assumes "x < pow2 (k + 1)" and "- 1074 \<le> k" and "k \<le> 1023"
  shows "binade x \<le> k"
proof -
  from find_upto_least [of "\<lambda>e. x < pow2 (e + 1)" k "- 1074" 1023, OF assms]
  obtain e where e: "find (\<lambda>e. x < pow2 (e + 1)) [- 1074 .. 1023] = Some e" and "e \<le> k"
    by blast
  from e have "binade x = e"
    unfolding binade_def by (rule ssubst) (rule option.case)
  with \<open>e \<le> k\<close> show ?thesis
    by linarith
qed

lemma binade_ge:
  assumes "pow2 k \<le> x" and "k \<le> 1024"
  shows "k \<le> binade x"
proof (cases "find (\<lambda>e. x < pow2 (e + 1)) [- 1074 .. 1023]")
  case None
  then have "binade x = 1024"
    unfolding binade_def by (rule ssubst) (rule option.case)
  with assms(2) show ?thesis
    by linarith
next
  case (Some e)
  then have b: "binade x = e"
    unfolding binade_def by (rule ssubst) (rule option.case)
  from find_upto_Some [OF Some] have e: "x < pow2 (e + 1)"
    by blast
  have "k \<le> e"
  proof (rule ccontr)
    assume "\<not> k \<le> e"
    then have "e + 1 \<le> k"
      by linarith
    then have "pow2 (e + 1) \<le> pow2 k"
      by (rule pow2_mono)
    with assms(1) e show False
      by linarith
  qed
  with b show ?thesis
    by linarith
qed

lemma binade_eq:
  assumes "pow2 k \<le> x" and "x < pow2 (k + 1)" and "- 1074 \<le> k" and "k \<le> 1023"
  shows "binade x = k"
proof -
  have "k \<le> 1024"
    using assms(4) by linarith
  from binade_le [OF assms(2,3,4)] binade_ge [OF assms(1) this] show ?thesis
    by linarith
qed

lemma round_half_even_bounds: "\<lfloor>y\<rfloor> \<le> round_half_even y \<and> round_half_even y \<le> \<lceil>y\<rceil>"
proof -
  have "\<lfloor>y\<rfloor> + 1 \<le> \<lceil>y\<rceil>" if "0 < y - of_int \<lfloor>y\<rfloor>"
  proof -
    from that have "of_int \<lfloor>y\<rfloor> < y"
      by simp
    then have "\<lfloor>y\<rfloor> < \<lceil>y\<rceil>"
      by (simp add: less_ceiling_iff)
    then show ?thesis
      by simp
  qed
  then show ?thesis
    by (auto simp add: round_half_even_def Let_def)
qed

lemma round_half_even_int: "round_half_even (of_int k) = k"
  by (simp add: round_half_even_def)


lemma round_double_bounds:
  assumes "0 < x" and "x < 2 ^ 53"
  shows "\<exists>q. round_double x = Some q \<and> of_int \<lfloor>x\<rfloor> \<le> q \<and> q \<le> of_int \<lceil>x\<rceil>"
proof -
  define ue where "ue = max (binade x - 52) (- 1074)"
  have "x < pow2 (52 + 1)"
    using assms(2) pow2_nat [of 53] by simp
  then have "binade x \<le> 52"
    by (rule binade_le) simp_all
  then have ue: "ue \<le> 0"
    by (simp add: ue_def)
  define K :: int where "K = 2 ^ nat (- ue)"
  have K: "0 < K"
    by (simp add: K_def)
  have u: "pow2 ue = 1 / of_int K"
    using ue by (simp add: pow2_neg K_def)
  define y where "y = x * of_int K"
  have y: "x / pow2 ue = y"
    by (simp add: u y_def)
  have "of_int (\<lfloor>x\<rfloor> * K) \<le> y"
    using K by (simp add: y_def)
  then have "\<lfloor>x\<rfloor> * K \<le> \<lfloor>y\<rfloor>"
    by (simp only: le_floor_iff)
  then have lo: "\<lfloor>x\<rfloor> * K \<le> round_half_even y"
    using round_half_even_bounds [of y] by linarith
  have "y \<le> of_int (\<lceil>x\<rceil> * K)"
    using K by (simp add: y_def)
  then have "\<lceil>y\<rceil> \<le> \<lceil>x\<rceil> * K"
    by (simp only: ceiling_le_iff)
  then have hi: "round_half_even y \<le> \<lceil>x\<rceil> * K"
    using round_half_even_bounds [of y] by linarith
  define q where "q = of_int (round_half_even y) * pow2 ue"
  have q: "q = of_int (round_half_even y) / of_int K"
    by (simp add: q_def u)
  have "of_int (\<lfloor>x\<rfloor> * K) \<le> (of_int (round_half_even y) :: real)"
    using lo by (simp only: of_int_le_iff)
  then have qlo: "of_int \<lfloor>x\<rfloor> \<le> q"
    using K by (simp add: q pos_le_divide_eq)
  have "(of_int (round_half_even y) :: real) \<le> of_int (\<lceil>x\<rceil> * K)"
    using hi by (simp only: of_int_le_iff)
  then have qhi: "q \<le> of_int \<lceil>x\<rceil>"
    using K by (simp add: q pos_divide_le_eq)
  have "\<lceil>x\<rceil> \<le> 2 ^ 53"
    using assms(2) by (simp add: ceiling_le_iff)
  then have "(of_int \<lceil>x\<rceil> :: real) \<le> 2 ^ 53"
    by (metis of_int_le_iff of_int_numeral of_int_power)
  also have "\<dots> < pow2 1024"
    using pow2_nat [of 1024] by simp
  finally have "q < pow2 1024"
    using qhi by linarith
  then have "round_double x = Some q"
    by (simp add: round_double_def Let_def ue_def [symmetric] y q_def)
  with qlo qhi show ?thesis
    by blast
qed

lemma round_double_overflow:
  assumes "pow2 1024 \<le> x"
  shows "round_double x = None"
proof -
  have "1024 \<le> binade x"
    using assms by (rule binade_ge) simp
  with binade_range [of x] have b: "binade x = 1024"
    by linarith
  have p: "pow2 1024 = pow2 52 * pow2 972"
    using pow2_add [of 52 972] by simp
  define y where "y = x / pow2 972"
  have "pow2 52 \<le> y"
    using assms pow2_pos [of 972] by (simp add: y_def p pos_le_divide_eq)
  moreover have "pow2 52 = of_int (2 ^ 52)"
    using pow2_nat [of 52] by simp
  ultimately have "of_int (2 ^ 52) \<le> y"
    by simp
  then have "2 ^ 52 \<le> \<lfloor>y\<rfloor>"
    by (simp only: le_floor_iff)
  then have "2 ^ 52 \<le> round_half_even y"
    using round_half_even_bounds [of y] by linarith
  then have "(of_int (2 ^ 52) :: real) \<le> of_int (round_half_even y)"
    by (simp only: of_int_le_iff)
  then have "pow2 52 \<le> of_int (round_half_even y)"
    using pow2_nat [of 52] by simp
  then have "pow2 52 * pow2 972 \<le> of_int (round_half_even y) * pow2 972"
    using pow2_pos [of 972] by (simp only: mult_le_cancel_right_pos)
  then show ?thesis
    by (simp add: round_double_def Let_def b y_def [symmetric] p)
qed


lemma round_double_rate_v: "round_double (200000 / rate_v) = Some 20000005"
proof -
  define x :: real where "x = 200000 / rate_v"
  have lo: "pow2 24 \<le> x"
    using pow2_nat [of 24] by (simp add: x_def rate_v_def)
  have hi: "x < pow2 (24 + 1)"
    using pow2_nat [of 25] by (simp add: x_def rate_v_def)
  have b: "binade x = 24"
    using lo hi by (rule binade_eq) simp_all
  have u: "pow2 (- 28) = 1 / 2 ^ 28"
    by (simp add: pow2_def)
  define y :: real where "y = x / pow2 (- 28)"
  have f: "\<lfloor>y\<rfloor> = 5368710462177280"
    by (rule floor_unique) (simp_all add: y_def u x_def rate_v_def)
  have d: "y - of_int \<lfloor>y\<rfloor> < 1 / 2"
    unfolding f by (simp add: y_def u x_def rate_v_def)
  have r: "round_half_even y = 5368710462177280"
    using d by (simp add: round_half_even_def Let_def f)
  have "pow2 1024 = 2 ^ 1024"
    using pow2_nat [of 1024] by simp
  then have nov: "\<not> pow2 1024 \<le> 20000005"
    by simp
  have m: "max (binade x - 52) (- 1074) = - 28"
    using b by simp
  have "of_int (round_half_even y) * pow2 (- 28) = 20000005"
    by (simp add: r u)
  then have qv: "of_int (round_half_even (x / pow2 (- 28))) * pow2 (- 28) = 20000005"
    by (simp only: y_def)
  have "round_double x = Some 20000005"
    unfolding round_double_def Let_def m qv using nov by simp
  then show ?thesis
    by (simp add: x_def)
qed

text \<open>The threshold as the code computes it, case by case.\<close>

lemma threshold_double_fallback:
  "whaleThresholdShannons_double None = Inr (10000000 * 10 ^ 8)"
  "p \<le> 0 \<Longrightarrow> whaleThresholdShannons_double (Some p) = Inr (10000000 * 10 ^ 8)"
  by (simp_all add: whaleThresholdShannons_double_def SHANNON_PER_CKB_def)

lemma threshold_double_pos:
  "0 < p \<Longrightarrow>
   whaleThresholdShannons_double (Some p) =
     (case round_double (200000 / p) of
        None \<Rightarrow> Inl RangeError
      | Some q \<Rightarrow> Inr (\<lceil>q\<rceil> * 10 ^ 8))"
  by (simp add: whaleThresholdShannons_double_def WHALE_USD_THRESHOLD_def SHANNON_PER_CKB_def
      Let_def split: option.splits)

lemma threshold_double_near:
  assumes "0 < p" and "200000 / p < 2 ^ 53"
  shows "\<exists>t. whaleThresholdShannons_double (Some p) = Inr (t * 10 ^ 8) \<and>
     (t = \<lceil>200000 / p\<rceil> \<or> t = \<lceil>200000 / p\<rceil> - 1)"
proof -
  from assms(1) have "0 < 200000 / p"
    by simp
  from round_double_bounds [OF this assms(2)]
  obtain q where q: "round_double (200000 / p) = Some q"
    "of_int \<lfloor>200000 / p\<rfloor> \<le> q" "q \<le> of_int \<lceil>200000 / p\<rceil>"
    by blast
  from q(3) have "\<lceil>q\<rceil> \<le> \<lceil>200000 / p\<rceil>"
    by (simp only: ceiling_le_iff)
  moreover from q(2) have "\<lfloor>200000 / p\<rfloor> \<le> \<lceil>q\<rceil>"
    by (meson le_of_int_ceiling of_int_le_iff order_trans)
  moreover have "\<lceil>200000 / p\<rceil> \<le> \<lfloor>200000 / p\<rfloor> + 1"
  proof -
    have "200000 / p \<le> of_int (\<lfloor>200000 / p\<rfloor> + 1)"
      using floor_correct [of "200000 / p"] by simp
    then show ?thesis
      by (simp only: ceiling_le_iff)
  qed
  ultimately have "\<lceil>q\<rceil> = \<lceil>200000 / p\<rceil> \<or> \<lceil>q\<rceil> = \<lceil>200000 / p\<rceil> - 1"
    by linarith
  with threshold_double_pos [OF assms(1)] q(1) show ?thesis
    by simp
qed

lemma threshold_double_exact:
  assumes "0 < p" and "200000 / p = of_int k" and "k < 2 ^ 53"
  shows "whaleThresholdShannons_double (Some p) = Inr (k * 10 ^ 8)"
proof -
  from assms(1) have x: "0 < 200000 / p"
    by simp
  have "(of_int k :: real) < 2 ^ 53"
    using assms(3) by (metis of_int_less_iff of_int_numeral of_int_power)
  then have "200000 / p < 2 ^ 53"
    by (simp add: assms(2))
  from round_double_bounds [OF x this]
  obtain q where q: "round_double (200000 / p) = Some q"
    "of_int \<lfloor>200000 / p\<rfloor> \<le> q" "q \<le> of_int \<lceil>200000 / p\<rceil>"
    by blast
  then have "q = of_int k"
    by (simp add: assms(2))
  with threshold_double_pos [OF assms(1)] q(1) show ?thesis
    by simp
qed

lemma threshold_double_overflow:
  assumes "0 < p" and "2 ^ 1024 \<le> 200000 / p"
  shows "whaleThresholdShannons_double (Some p) = Inl RangeError"
proof -
  have "pow2 1024 \<le> 200000 / p"
    using assms(2) pow2_nat [of 1024] by simp
  then have "round_double (200000 / p) = None"
    by (rule round_double_overflow)
  with threshold_double_pos [OF assms(1)] show ?thesis
    by simp
qed

text \<open>
  The two embeddings of the threshold agree when the rate is absent or not positive, and
  for a positive rate whose quotient is below \<open>2 ^ 53\<close> they are equal or one CKB apart.
\<close>

lemma threshold_embeddings:
  "whaleThresholdShannons_double None = Inr (whaleThresholdShannons None)"
  "p \<le> 0 \<Longrightarrow> whaleThresholdShannons_double (Some p) = Inr (whaleThresholdShannons (Some p))"
  "0 < p \<Longrightarrow> 200000 / p < 2 ^ 53 \<Longrightarrow>
     whaleThresholdShannons_double (Some p) = Inr (whaleThresholdShannons (Some p)) \<or>
     whaleThresholdShannons_double (Some p) = Inr (whaleThresholdShannons (Some p) - 10 ^ 8)"
proof -
  show "whaleThresholdShannons_double None = Inr (whaleThresholdShannons None)"
    by (simp add: whaleThresholdShannons_double_def whaleThresholdShannons_def)
  show "whaleThresholdShannons_double (Some p) = Inr (whaleThresholdShannons (Some p))"
    if "p \<le> 0"
    using that by (simp add: whaleThresholdShannons_double_def whaleThresholdShannons_def)
  show "whaleThresholdShannons_double (Some p) = Inr (whaleThresholdShannons (Some p)) \<or>
     whaleThresholdShannons_double (Some p) = Inr (whaleThresholdShannons (Some p) - 10 ^ 8)"
    if p: "0 < p" "200000 / p < 2 ^ 53"
  proof -
    have e: "whaleThresholdShannons (Some p) = \<lceil>200000 / p\<rceil> * 10 ^ 8"
      using p(1)
      by (simp add: whaleThresholdShannons_def WHALE_USD_THRESHOLD_def SHANNON_PER_CKB_def Let_def)
    from threshold_double_near [OF p]
    obtain t where t: "whaleThresholdShannons_double (Some p) = Inr (t * 10 ^ 8)"
      "t = \<lceil>200000 / p\<rceil> \<or> t = \<lceil>200000 / p\<rceil> - 1"
      by blast
    from t(2) have "t * 10 ^ 8 = \<lceil>200000 / p\<rceil> * 10 ^ 8 \<or>
        t * 10 ^ 8 = \<lceil>200000 / p\<rceil> * 10 ^ 8 - 10 ^ 8"
      by (auto simp add: algebra_simps)
    with t(1) e show ?thesis
      by auto
  qed
qed

text \<open>
  Claim C3 says that for every positive rate the function returns
  \<open>\<lceil>200000 / rate\<rceil>\<close> CKB. The code takes the ceiling of the quotient of two
  doubles, which is the quotient rounded to the nearest double. At the rate
  \<open>2882303040941357 / 2 ^ 58\<close> (the double nearest to 0.009999997500000624) the
  quotient lies between 20,000,005 and 20,000,005 + \<open>2 ^ (- 29)\<close> and is rounded to
  20,000,005, so the code returns 20,000,005 CKB where the ceiling of the quotient is
  20,000,006. At the rate \<open>2 ^ (- 1074)\<close>, the smallest positive double, the quotient
  is rounded to \<^verbatim>\<open>Infinity\<close> and \<^verbatim>\<open>BigInt\<close> throws: nothing is returned.
\<close>

theorem threshold_rounding_counterexample:
  "0 < rate_v \<and>
   whaleThresholdShannons_double (Some rate_v) = Inr (20000005 * 10 ^ 8) \<and>
   \<lceil>200000 / rate_v\<rceil> * 10 ^ 8 = (20000006 * 10 ^ 8 :: int) \<and>
   whaleThresholdShannons_double (Some (1 / 2 ^ 1074)) = Inl RangeError"
proof -
  have "0 < rate_v"
    by (simp add: rate_v_def)
  moreover have "whaleThresholdShannons_double (Some rate_v) = Inr (20000005 * 10 ^ 8)"
    using \<open>0 < rate_v\<close>
    by (simp add: whaleThresholdShannons_double_def WHALE_USD_THRESHOLD_def
        round_double_rate_v SHANNON_PER_CKB_def Let_def)
  moreover have "\<lceil>200000 / rate_v\<rceil> = 20000006"
    by (rule ceiling_unique) (simp_all add: rate_v_def)
  moreover have "whaleThresholdShannons_double (Some (1 / 2 ^ 1074)) = Inl RangeError"
    by (rule threshold_double_overflow) simp_all
  ultimately show ?thesis
    by simp
qed

text \<open>
  Claim C3, as the code has it. \<^verbatim>\<open>whaleThresholdShannons\<close> returns the fallback of
  10,000,000 CKB, in shannons, when the rate is absent or not positive. For a positive
  rate it returns \<open>\<lceil>q\<rceil> * 10 ^ 8\<close>, where \<open>q\<close> is the quotient \<open>200000 / rate\<close>
  rounded to the nearest double, and throws when \<open>q\<close> is \<^verbatim>\<open>Infinity\<close>. When the
  quotient is below \<open>2 ^ 53\<close> the result is \<open>\<lceil>200000 / rate\<rceil>\<close> CKB or one CKB
  less, and it is \<open>\<lceil>200000 / rate\<rceil>\<close> CKB when the quotient is a whole number. When
  the quotient is \<open>2 ^ 1024\<close> or more the function throws.
\<close>

theorem threshold_double_cases:
  "whaleThresholdShannons_double None = Inr (10000000 * 10 ^ 8) \<and>
   (\<forall>p. p \<le> 0 \<longrightarrow> whaleThresholdShannons_double (Some p) = Inr (10000000 * 10 ^ 8)) \<and>
   (\<forall>p. 0 < p \<longrightarrow>
      whaleThresholdShannons_double (Some p) =
        (case round_double (200000 / p) of
           None \<Rightarrow> Inl RangeError
         | Some q \<Rightarrow> Inr (\<lceil>q\<rceil> * 10 ^ 8))) \<and>
   (\<forall>p. 0 < p \<and> 200000 / p < 2 ^ 53 \<longrightarrow>
      (\<exists>t. whaleThresholdShannons_double (Some p) = Inr (t * 10 ^ 8) \<and>
         (t = \<lceil>200000 / p\<rceil> \<or> t = \<lceil>200000 / p\<rceil> - 1))) \<and>
   (\<forall>p k. 0 < p \<and> 200000 / p = of_int k \<and> k < 2 ^ 53 \<longrightarrow>
      whaleThresholdShannons_double (Some p) = Inr (k * 10 ^ 8)) \<and>
   (\<forall>p. 0 < p \<and> 2 ^ 1024 \<le> 200000 / p \<longrightarrow>
      whaleThresholdShannons_double (Some p) = Inl RangeError)"
  using threshold_double_fallback threshold_double_pos threshold_double_near
    threshold_double_exact threshold_double_overflow
  by blast

text \<open>
  A negative rate gives the fallback; 0.25 USD gives 800,000 CKB and 1/128 USD gives
  25,600,000 CKB; the smallest positive double makes the function throw.
\<close>

theorem threshold_double_cases_witness:
  "whaleThresholdShannons_double (Some (- 1)) = Inr 1000000000000000 \<and>
   whaleThresholdShannons_double (Some (1 / 4)) = Inr 80000000000000 \<and>
   whaleThresholdShannons_double (Some (1 / 128)) = Inr 2560000000000000 \<and>
   whaleThresholdShannons_double (Some (1 / 2 ^ 1074)) = Inl RangeError"
proof -
  have neg: "(- 1 :: real) \<le> 0"
    by simp
  have q: "(0 :: real) < 1 / 4 \<and> 200000 / (1 / 4 :: real) = of_int 800000 \<and> (800000 :: int) < 2 ^ 53"
    by simp
  have c: "(0 :: real) < 1 / 128 \<and> 200000 / (1 / 128 :: real) = of_int 25600000 \<and>
      (25600000 :: int) < 2 ^ 53"
    by simp
  have t: "(0 :: real) < 1 / 2 ^ 1074 \<and> (2 :: real) ^ 1024 \<le> 200000 / (1 / 2 ^ 1074)"
    by simp
  from threshold_double_cases neg
  have "whaleThresholdShannons_double (Some (- 1)) = Inr (10000000 * 10 ^ 8)"
    by blast
  moreover from threshold_double_cases q
  have "whaleThresholdShannons_double (Some (1 / 4)) = Inr (800000 * 10 ^ 8)"
    by blast
  moreover from threshold_double_cases c
  have "whaleThresholdShannons_double (Some (1 / 128)) = Inr (25600000 * 10 ^ 8)"
    by blast
  moreover from threshold_double_cases t
  have "whaleThresholdShannons_double (Some (1 / 2 ^ 1074)) = Inl RangeError"
    by blast
  ultimately show ?thesis
    by simp
qed




subsection \<open>Price cache: \<^verbatim>\<open>fetchCkbPrice\<close>\<close>




text \<open>
  Claim C8. With a rate in the cache that is younger than the TTL, \<^verbatim>\<open>fetchCkbPrice\<close>
  returns that rate and changes nothing: no request is made. Otherwise it makes exactly one
  request. When the answer carries a positive number, that number becomes the rate, the
  time of the call becomes its timestamp, and it is returned. When the request is
  rejected, or the answer carries no number or a number that is not positive, the cache
  keeps rate and timestamp and the call returns the last known rate, \<^verbatim>\<open>null\<close>
  (here \<open>None\<close>) when there is none. In every case the call returns a value and does
  not raise.
\<close>

theorem fetchCkbPrice_contract:
  "(\<forall>r. ckbPriceUsd s = Some r \<and> now - priceFetchedAt s < PRICE_TTL_MS \<longrightarrow>
        fetchCkbPrice now resp s = (Inr (Some r), s)) \<and>
   (\<not> (ckbPriceUsd s \<noteq> None \<and> now - priceFetchedAt s < PRICE_TTL_MS) \<longrightarrow>
        trace (snd (fetchCkbPrice now resp s)) = trace s @ [PriceRequest] \<and>
        (\<forall>p. resp = Inr (UsdNumber p) \<and> 0 < p \<longrightarrow>
           fetchCkbPrice now resp s =
             (Inr (Some p),
              s\<lparr>ckbPriceUsd := Some p, priceFetchedAt := now,
                trace := trace s @ [PriceRequest]\<rparr>)) \<and>
        ((\<exists>e. resp = Inl e) \<or> resp = Inr UsdOther \<or>
         (\<exists>p. resp = Inr (UsdNumber p) \<and> p \<le> 0) \<longrightarrow>
           fetchCkbPrice now resp s =
             (Inr (ckbPriceUsd s), s\<lparr>trace := trace s @ [PriceRequest]\<rparr>))) \<and>
   (\<exists>r. fst (fetchCkbPrice now resp s) = Inr r)"
  by (auto simp add: fetchCkbPrice_def Let_def split: sum.splits usd_field.splits)

text \<open>
  A rate fetched at time 1000: used as it is at time 2000, kept after a failed refresh at
  time 400000, replaced by a successful one; and no rate at all after a failed first fetch.
\<close>

theorem fetchCkbPrice_contract_witness:
  "fetchCkbPrice 2000 (Inl RequestFailed) demo_bot = (Inr (Some (1 / 100)), demo_bot) \<and>
   fetchCkbPrice 400000 (Inl RequestFailed) demo_bot =
     (Inr (Some (1 / 100)), demo_bot\<lparr>trace := [PriceRequest]\<rparr>) \<and>
   fetchCkbPrice 400000 (Inr (UsdNumber (1 / 50))) demo_bot =
     (Inr (Some (1 / 50)),
      demo_bot\<lparr>ckbPriceUsd := Some (1 / 50), priceFetchedAt := 400000,
        trace := [PriceRequest]\<rparr>) \<and>
   fetchCkbPrice 400000 (Inr UsdOther) (startup None) =
     (Inr None, (startup None)\<lparr>trace := [PriceRequest]\<rparr>)"
proof -
  have c: "ckbPriceUsd demo_bot = Some (1 / 100)" "priceFetchedAt demo_bot = 1000"
    "trace demo_bot = []" "ckbPriceUsd (startup None) = None" "trace (startup None) = []"
    by (simp_all add: demo_bot_def startup_def)
  have 1: "fetchCkbPrice 2000 (Inl RequestFailed) demo_bot = (Inr (Some (1 / 100)), demo_bot)"
    using fetchCkbPrice_contract [of demo_bot 2000 "Inl RequestFailed"] c
    by (simp add: PRICE_TTL_MS_def)
  have 2: "fetchCkbPrice 400000 (Inl RequestFailed) demo_bot =
     (Inr (Some (1 / 100)), demo_bot\<lparr>trace := [PriceRequest]\<rparr>)"
    using fetchCkbPrice_contract [of demo_bot 400000 "Inl RequestFailed"] c
    by (simp add: PRICE_TTL_MS_def)
  have 3: "fetchCkbPrice 400000 (Inr (UsdNumber (1 / 50))) demo_bot =
     (Inr (Some (1 / 50)),
      demo_bot\<lparr>ckbPriceUsd := Some (1 / 50), priceFetchedAt := 400000,
        trace := [PriceRequest]\<rparr>)"
    using fetchCkbPrice_contract [of demo_bot 400000 "Inr (UsdNumber (1 / 50))"] c
    by (simp add: PRICE_TTL_MS_def)
  have 4: "fetchCkbPrice 400000 (Inr UsdOther) (startup None) =
     (Inr None, (startup None)\<lparr>trace := [PriceRequest]\<rparr>)"
    using fetchCkbPrice_contract [of "startup None" 400000 "Inr UsdOther"] c
    by simp
  from 1 2 3 4 show ?thesis by blast
qed

subsection \<open>Self-transfer detection: \<^verbatim>\<open>isSelfTransfer\<close>\<close>

lemma promise_all_Inr:
  "promise_all (map f xs) = Inr vs \<Longrightarrow> length vs = length xs \<and> (\<forall>j < length xs. f (xs ! j) = Inr (vs ! j))"
proof (induction xs arbitrary: vs)
  case Nil
  then show ?case by simp
next
  case (Cons x xs)
  then show ?case
    by (auto split: sum.splits simp add: nth_Cons split: nat.splits)
qed

lemma promise_all_cases:
  "(\<exists>vs. promise_all (map f xs) = Inr vs) \<longleftrightarrow> \<not> list_ex (\<lambda>x. isl (f x)) xs"
  by (induction xs) (auto split: sum.splits simp add: isl_def)

text \<open>The loop collects the authorities of the inputs from \<open>j\<close> on.\<close>

lemma collectLocks_eq:
  assumes "length rs = length ins"
    and "\<forall>j < length ins. rpc_transaction w (tx_hash (previous_output (ins ! j))) = Inr (rs ! j)"
  shows "collectLocks ins rs j S = S \<union> set (List.map_filter (authority_of w) (drop j ins))"
  using assms
proof (induction ins rs j S rule: collectLocks.induct)
  case (1 ins rs j S)
  show ?case
  proof (cases "j < length ins")
    case False
    then show ?thesis
      by (subst collectLocks.simps) simp
  next
    case True
    then have d: "drop j ins = ins ! j # drop (Suc j) ins"
      by (simp add: Cons_nth_drop_Suc)
    have r: "rpc_transaction w (tx_hash (previous_output (ins ! j))) = Inr (rs ! j)"
      using True 1 by simp
    have a: "authority_of w (ins ! j) =
        (case rs ! j of
           None \<Rightarrow> None
         | Some res \<Rightarrow>
             (case transaction res of
                None \<Rightarrow> None
              | Some prev \<Rightarrow>
                  if index (previous_output (ins ! j)) < length (outputs prev)
                  then Some (lock (outputs prev ! index (previous_output (ins ! j))))
                  else None))"
      by (simp add: authority_of_def r)
    show ?thesis
    proof (cases "rs ! j")
      case None
      with True 1 a d show ?thesis
        by (subst collectLocks.simps) simp
    next
      case (Some res)
      show ?thesis
      proof (cases "transaction res")
        case None
        with True 1 a d Some show ?thesis
          by (subst collectLocks.simps) simp
      next
        case (Some prev)
        with True 1 a d \<open>rs ! j = Some res\<close> show ?thesis
          by (subst collectLocks.simps) (simp add: Let_def)
      qed
    qed
  qed
qed


text \<open>
  Claim C2. \<^verbatim>\<open>isSelfTransfer\<close> always returns a truth value: a rejected lookup is
  caught and gives \<^verbatim>\<open>false\<close>, as does an empty set of input authorities. With a
  set that is not empty the result is \<^verbatim>\<open>true\<close> exactly when the lock of every
  output is in the set.
\<close>

theorem isSelfTransfer_contract:
  "isSelfTransfer w t =
     Inr (\<not> lookup_rejected w t \<and> inputAuthorities w t \<noteq> {} \<and>
          (\<forall>out \<in> set (outputs t). lock out \<in> inputAuthorities w t))"
proof (cases "promise_all (map (\<lambda>inp. rpc_transaction w (tx_hash (previous_output inp))) (inputs t))")
  case (Inl e)
  then have "lookup_rejected w t"
    using promise_all_cases [of "\<lambda>inp. rpc_transaction w (tx_hash (previous_output inp))" "inputs t"]
    by (simp add: lookup_rejected_def)
  with Inl show ?thesis
    by (simp add: isSelfTransfer_def isSelfTransfer_try_def)
next
  case (Inr rs)
  then have nr: "\<not> lookup_rejected w t"
    using promise_all_cases [of "\<lambda>inp. rpc_transaction w (tx_hash (previous_output inp))" "inputs t"]
    by (auto simp add: lookup_rejected_def)
  from Inr have "collectLocks (inputs t) rs 0 {} = inputAuthorities w t"
    using promise_all_Inr [OF Inr] by (simp add: collectLocks_eq [of _ _ w] inputAuthorities_def)
  with Inr nr show ?thesis
    by (auto simp add: isSelfTransfer_def isSelfTransfer_try_def Let_def inputAuthorities_def list_all_iff)
qed

text \<open>
  A transfer back to the spent lock is a self-transfer; one that also pays another lock is
  not; neither is a transaction without inputs, nor one whose lookup is rejected.
\<close>

theorem isSelfTransfer_contract_witness:
  "isSelfTransfer demo_world selfTx = Inr True \<and>
   isSelfTransfer demo_world whaleTx = Inr False \<and>
   isSelfTransfer demo_world cellbaseTx = Inr False \<and>
   isSelfTransfer demo_world unknownTx = Inr False"
proof -
  have a: "authority_of demo_world spendA = Some lockA"
    by (simp add: authority_of_def demo_world_def spendA_def prevTx_def)
  have l: "lockB \<noteq> lockA"
    by (simp add: lockA_def lockB_def)
  have "isSelfTransfer demo_world selfTx = Inr True"
    using isSelfTransfer_contract [of demo_world selfTx]
    by (simp add: selfTx_def lookup_rejected_def inputAuthorities_def a)
      (simp add: demo_world_def spendA_def)
  moreover have "isSelfTransfer demo_world whaleTx = Inr False"
    using isSelfTransfer_contract [of demo_world whaleTx]
    by (simp add: whaleTx_def lookup_rejected_def inputAuthorities_def a l)
  moreover have "isSelfTransfer demo_world cellbaseTx = Inr False"
    using isSelfTransfer_contract [of demo_world cellbaseTx]
    by (simp add: cellbaseTx_def lookup_rejected_def inputAuthorities_def)
  moreover have "isSelfTransfer demo_world unknownTx = Inr False"
    using isSelfTransfer_contract [of demo_world unknownTx]
    by (simp add: unknownTx_def lookup_rejected_def demo_world_def)
  ultimately show ?thesis
    by blast
qed

subsection \<open>Block processing: \<^verbatim>\<open>processBlock\<close>\<close>


lemma sent_append: "sent (xs @ ys) = sent xs @ sent ys"
  by (induction xs rule: sent.induct) simp_all

lemma fetched_append: "fetched (xs @ ys) = fetched xs @ fetched ys"
  by (induction xs rule: fetched.induct) simp_all


lemma fetched_map_SendTelegram: "fetched (map (SendTelegram \<circ> f) xs) = []"
  by (induction xs) simp_all





subsection \<open>Reading the state file: \<^verbatim>\<open>loadLastBlock\<close>\<close>

lemma isDigit_not_white: "isDigit c \<Longrightarrow> \<not> isWhiteSpace c"
  by (auto simp add: isDigit_def isWhiteSpace_def)

lemma isDigit_not_sign: "isDigit c \<Longrightarrow> c \<noteq> CHR ''-'' \<and> c \<noteq> CHR ''+''"
  by (auto simp add: isDigit_def)

lemma set_trim: "set (trim str) \<subseteq> set str"
  by (auto simp add: trim_def dest!: set_dropWhileD)

lemma parseInt10_no_digit:
  assumes "\<forall>c \<in> set str. \<not> isDigit c"
  shows "parseInt10 str = None"
proof -
  define s where "s = dropWhile isWhiteSpace str"
  have s: "\<forall>c \<in> set s. \<not> isDigit c"
    using assms unfolding s_def by (auto dest: set_dropWhileD)
  then have "takeWhile isDigit s = []" "takeWhile isDigit (tl s) = []"
    by (cases s; auto simp add: takeWhile_eq_Nil_iff list.set_sel)+
  then show ?thesis
    by (cases s) (auto simp add: parseInt10_def Let_def s_def [symmetric])
qed

text \<open>What \<^verbatim>\<open>String(n)\<close> writes is read back as \<open>n\<close>.\<close>

lemma decimal_digits: "\<forall>c \<in> set (decimal n). isDigit c"
proof (induction n rule: decimal.induct)
  case (1 n)
  show ?case
  proof (cases "n < 10")
    case True
    then show ?thesis
      by (subst decimal.simps) (simp add: isDigit_def)
  next
    case False
    have "n mod 10 < 10" by simp
    then have "isDigit (char_of (48 + n mod 10))"
      by (simp add: isDigit_def)
    with False 1 show ?thesis
      by (subst decimal.simps) simp
  qed
qed

lemma decimal_nonempty: "decimal n \<noteq> []"
  by (subst decimal.simps) simp

lemma decimal_value: "foldl (\<lambda>a c. 10 * a + digitVal c) 0 (decimal n) = n"
proof (induction n rule: decimal.induct)
  case (1 n)
  show ?case
  proof (cases "n < 10")
    case True
    then show ?thesis
      by (subst decimal.simps) (simp add: digitVal_def)
  next
    case False
    have "n mod 10 < 10" by simp
    then have "digitVal (char_of (48 + n mod 10)) = n mod 10"
      by (simp add: digitVal_def)
    with False 1 show ?thesis
      by (subst decimal.simps) simp
  qed
qed

lemma dropWhile_none: "\<forall>c \<in> set xs. \<not> P c \<Longrightarrow> dropWhile P xs = xs"
  by (cases xs) auto

lemma trim_decimal: "trim (decimal n) = decimal n"
proof -
  have "\<forall>c \<in> set (decimal n). \<not> isWhiteSpace c"
    using decimal_digits isDigit_not_white by blast
  then show ?thesis
    by (simp add: trim_def dropWhile_none)
qed

lemma parseInt10_decimal: "parseInt10 (decimal n) = Some (int n)"
proof -
  obtain c cs where dec: "decimal n = c # cs"
    using decimal_nonempty by (cases "decimal n") auto
  have dig: "\<forall>c \<in> set (decimal n). isDigit c"
    by (rule decimal_digits)
  then have "isDigit c"
    by (simp add: dec)
  then have c: "\<not> isWhiteSpace c" "c \<noteq> CHR ''-''" "c \<noteq> CHR ''+''"
    using isDigit_not_white isDigit_not_sign by blast+
  have tw: "takeWhile isDigit (decimal n) = decimal n"
    using dig by (simp add: takeWhile_eq_all_conv)
  have "parseInt10 (c # cs) =
          Some (int (foldl (\<lambda>a c. 10 * a + digitVal c) 0 (takeWhile isDigit (c # cs))))"
    using c \<open>isDigit c\<close> by (simp add: parseInt10_def Let_def)
  then show ?thesis
    using tw decimal_value [of n] by (simp add: dec)
qed

lemma loadLastBlock_decimal:
  "loadLastBlock (Some (decimal n)) = (if 0 < n then Some n else None)"
  by (simp add: loadLastBlock_def trim_decimal parseInt10_decimal)

subsection \<open>One height\<close>
















subsection \<open>A poll cycle\<close>




lemma poll_first_run:
  "lastBlock s = None \<Longrightarrow> rpc_tip w = Inr T \<Longrightarrow>
   poll w s =
     (if fs_write w T
      then s\<lparr>lastBlock := Some T, stateFile := Some (decimal T), trace := trace s @ [WriteFile T]\<rparr>
      else s\<lparr>lastBlock := Some T, stateFile := fs_damage w T (stateFile s),
             trace := trace s @ [WriteFileFailed T]\<rparr>)"
  by (simp add: poll_def poll_try_def saveLastBlock_def Let_def)













subsection \<open>Cycles under way together\<close>








subsection \<open>Catching up\<close>






subsection \<open>The pointer over the cycles\<close>





subsection \<open>The first run\<close>

text \<open>
  Claim C7. On the first run (no pointer) a cycle that finds the tip \<open>T\<close> sets the
  pointer to \<open>T\<close>, does nothing but write the state file, whose content becomes \<open>T\<close>
  when the write succeeds, and neither requests a block nor sends an alert.
\<close>

theorem poll_first_run_contract:
  assumes "lastBlock s = None" and "rpc_tip w = Inr T"
  shows "lastBlock (poll w s) = Some T \<and>
         trace (poll w s) = trace s @ [if fs_write w T then WriteFile T else WriteFileFailed T] \<and>
         (fs_write w T \<longrightarrow> stateFile (poll w s) = Some (decimal T)) \<and>
         fetched (trace (poll w s)) = fetched (trace s) \<and>
         sent (trace (poll w s)) = sent (trace s)"
  using assms by (simp add: poll_first_run fetched_append sent_append)

theorem poll_first_run_contract_witness:
  "lastBlock (poll demo_world (startup None)) = Some 103 \<and>
   trace (poll demo_world (startup None)) = [WriteFile 103] \<and>
   stateFile (poll demo_world (startup None)) = Some ''103''"
proof -
  have s: "lastBlock (startup None) = None" "trace (startup None) = []"
    by (simp_all add: startup_def loadLastBlock_def)
  have w: "rpc_tip demo_world = Inr 103" "fs_write demo_world 103"
    by (simp_all add: demo_world_def)
  have d: "decimal 103 = ''103''"
    by code_simp
  from poll_first_run_contract [OF s(1) w(1)] w(2) s(2) d show ?thesis
    by simp
qed

subsection \<open>A failed write of the pointer\<close>






subsection \<open>The pointer after a restart\<close>

text \<open>
  Claim C10. \<^verbatim>\<open>loadLastBlock\<close> returns no pointer when the file cannot be read, when
  its content has no digit, more generally when \<^verbatim>\<open>parseInt\<close> of the trimmed content
  is \<^verbatim>\<open>NaN\<close>, and when the number read is zero or negative. The file that
  \<^verbatim>\<open>saveLastBlock(0)\<close> writes is read as no pointer, so a bot started on it sets its
  pointer to the tip in its first cycle.
\<close>

theorem loadLastBlock_absent:
  "loadLastBlock None = None \<and>
   (\<forall>content. (\<forall>c \<in> set content. \<not> isDigit c) \<longrightarrow> loadLastBlock (Some content) = None) \<and>
   (\<forall>content. parseInt10 (trim content) = None \<longrightarrow> loadLastBlock (Some content) = None) \<and>
   (\<forall>content n. parseInt10 (trim content) = Some n \<and> n \<le> 0 \<longrightarrow>
      loadLastBlock (Some content) = None) \<and>
   loadLastBlock (Some (decimal 0)) = None \<and>
   (\<forall>w tip. rpc_tip w = Inr tip \<longrightarrow>
      lastBlock (startup (Some (decimal 0))) = None \<and>
      lastBlock (poll w (startup (Some (decimal 0)))) = Some tip)"
proof -
  have nodigit: "loadLastBlock (Some content) = None"
    if "\<forall>c \<in> set content. \<not> isDigit c" for content
  proof -
    from that set_trim have "\<forall>c \<in> set (trim content). \<not> isDigit c"
      by blast
    then show ?thesis
      by (simp add: loadLastBlock_def parseInt10_no_digit)
  qed
  have zero: "loadLastBlock (Some (decimal 0)) = None"
    by (simp add: loadLastBlock_decimal)
  then have "lastBlock (startup (Some (decimal 0))) = None"
    by (simp add: startup_def)
  with nodigit zero show ?thesis
    by (auto simp add: loadLastBlock_def poll_first_run)
qed

theorem loadLastBlock_absent_witness:
  "loadLastBlock (Some ''abc'') = None \<and> loadLastBlock (Some '' -5'') = None \<and>
   lastBlock (poll demo_world (startup (Some (decimal 0)))) = Some 103"
proof -
  have 1: "\<forall>c \<in> set ''abc''. \<not> isDigit c"
    by (simp add: isDigit_def)
  have 2: "parseInt10 (trim '' -5'') = Some (- 5) \<and> (- 5 :: int) \<le> 0"
    by (simp add: parseInt10_def trim_def isWhiteSpace_def isDigit_def digitVal_def)
  have 3: "rpc_tip demo_world = Inr 103"
    by (simp add: demo_world_def)
  from loadLastBlock_absent 1 have "loadLastBlock (Some ''abc'') = None"
    by blast
  moreover from loadLastBlock_absent 2 have "loadLastBlock (Some '' -5'') = None"
    by blast
  moreover from loadLastBlock_absent 3
  have "lastBlock (poll demo_world (startup (Some (decimal 0)))) = Some 103"
    by blast
  ultimately show ?thesis
    by blast
qed

end
